theory Spec2Isabelle
  imports Complex_Main "HOL-Library.Multiset"
begin

section \<open>Data model of package zipcodes\<close>

text \<open>
  Go strings are byte sequences, as \<^typ>\<open>string\<close> is; \<open>len\<close> is \<^const>\<open>length\<close>.
  The type \<open>float64\<close> is the type parameter \<open>'f\<close>. The model fixes neither its values nor
  its arithmetic: the operations on it are parameters, so that every statement holds for
  the machine's IEEE 754 arithmetic, with its rounding, its infinities and its NaN.
\<close>

datatype error =
    ErrMultipleLatLon
  | ErrZipcodeNotFound
  | ErrCountryCode
  | ErrOpeningFile string
  | ErrFieldCount
  | ErrLatitude string
  | ErrLongitude string

record 'f ZipCodeLocation =
  ZipCode :: string
  PlaceName :: string
  AdminName :: string
  Lat :: 'f
  Lon :: 'f
  StateCode :: string

type_synonym 'f ZipCodeLocations = "'f ZipCodeLocation list"

record 'f Zipcodes =
  DatasetList :: "string \<rightharpoonup> 'f ZipCodeLocations"

text \<open>The zero value \<open>Zipcodes{}\<close>: its map is nil, which reads as the empty map.\<close>

definition Zipcodes_zero :: "'f Zipcodes" where
  "Zipcodes_zero = \<lparr>DatasetList = Map.empty\<rparr>"

section \<open>Lookup\<close>

text \<open>
  \<open>Lookup\<close> returns a pair, as the Go method does: the slice (nil is the empty list)
  and the error, \<^const>\<open>None\<close> for nil.
\<close>

definition Lookup :: "'f Zipcodes \<Rightarrow> string \<Rightarrow> 'f ZipCodeLocations \<times> error option" where
  "Lookup zc zipCode =
     (case DatasetList zc zipCode of
        None \<Rightarrow> ([], Some ErrZipcodeNotFound)
      | Some zipcodes \<Rightarrow>
          if length zipcodes > 1 then (zipcodes, Some ErrMultipleLatLon)
          else (zipcodes, None))"

definition IsMulti :: "'f ZipCodeLocations \<Rightarrow> bool" where
  "IsMulti zcl = (length zcl > 1)"

section \<open>Distances\<close>

text \<open>
  The arithmetic of \<open>float64\<close> and the functions of Go's package \<open>math\<close> that the
  package calls. Their code is not part of the package; they are parameters of the model.
  \<open>F64 n\<close> is the \<open>float64\<close> that the integer constant \<open>n\<close> converts to; \<open>Sub\<close>,
  \<open>Add\<close>, \<open>Mul\<close>, \<open>Div\<close> and \<open>Less\<close> are the operators \<open>-\<close>, \<open>+\<close>, \<open>*\<close>, \<open>/\<close> and
  \<open><\<close> on \<open>float64\<close>; \<open>MathPi\<close> is \<open>math.Pi\<close> as a \<open>float64\<close>; the other fields are the
  functions of the same name.
\<close>

record 'f gomath =
  F64 :: "int \<Rightarrow> 'f"
  Add :: "'f \<Rightarrow> 'f \<Rightarrow> 'f"
  Sub :: "'f \<Rightarrow> 'f \<Rightarrow> 'f"
  Mul :: "'f \<Rightarrow> 'f \<Rightarrow> 'f"
  Div :: "'f \<Rightarrow> 'f \<Rightarrow> 'f"
  Less :: "'f \<Rightarrow> 'f \<Rightarrow> bool"
  MathPi :: 'f
  Sin :: "'f \<Rightarrow> 'f"
  Cos :: "'f \<Rightarrow> 'f"
  Sqrt :: "'f \<Rightarrow> 'f"
  Pow :: "'f \<Rightarrow> 'f \<Rightarrow> 'f"
  Atan2 :: "'f \<Rightarrow> 'f \<Rightarrow> 'f"
  Round :: "'f \<Rightarrow> 'f"

text \<open>The untyped constants of the package.\<close>

definition earthRadiusKm :: int where
  "earthRadiusKm = 6371"

definition earthRadiusMi :: int where
  "earthRadiusMi = 3958"

definition degreesToRadians :: "'f gomath \<Rightarrow> 'f \<Rightarrow> 'f" where
  "degreesToRadians M d = Div M (Mul M d (MathPi M)) (F64 M 180)"

definition hsin :: "'f gomath \<Rightarrow> 'f \<Rightarrow> 'f" where
  "hsin M t = Pow M (Sin M (Div M t (F64 M 2))) (F64 M 2)"

definition DistanceBetweenPoints :: "'f gomath \<Rightarrow> 'f \<Rightarrow> 'f \<Rightarrow> 'f \<Rightarrow> 'f \<Rightarrow> 'f \<Rightarrow> 'f" where
  "DistanceBetweenPoints M latitude1 longitude1 latitude2 longitude2 radius =
     (let lat1 = degreesToRadians M latitude1;
          lon1 = degreesToRadians M longitude1;
          lat2 = degreesToRadians M latitude2;
          lon2 = degreesToRadians M longitude2;
          diffLat = Sub M lat2 lat1;
          diffLon = Sub M lon2 lon1;
          a = Add M (hsin M diffLat) (Mul M (Mul M (Cos M lat1) (Cos M lat2)) (hsin M diffLon));
          c = Mul M (F64 M 2) (Atan2 M (Sqrt M a) (Sqrt M (Sub M (F64 M 1) a)));
          distance = Mul M c radius
      in Div M (Round M (Mul M distance (F64 M 100))) (F64 M 100))"

text \<open>
  \<open>DistanceBetweenPoints\<close> passes \<open>1 - a\<close> to \<open>math.Sqrt\<close> as it is. In \<open>float64\<close>
  arithmetic the rounding of the sum can leave \<open>a\<close> above 1 for points opposite each other
  on the sphere; \<open>math.Sqrt\<close> of a negative number is NaN, and the NaN reaches the result.
  The model keeps that path: it says nothing about what \<open>Sqrt\<close> returns.
\<close>

definition CalculateDistance ::
  "'f gomath \<Rightarrow> 'f Zipcodes \<Rightarrow> 'f ZipCodeLocation \<Rightarrow> 'f ZipCodeLocation \<Rightarrow> 'f \<Rightarrow> 'f" where
  "CalculateDistance M zc zipcodeLocationA zipcodeLocationB radius =
     DistanceBetweenPoints M (Lat zipcodeLocationA) (Lon zipcodeLocationA)
       (Lat zipcodeLocationB) (Lon zipcodeLocationB) radius"

definition DistanceInKm ::
  "'f gomath \<Rightarrow> 'f Zipcodes \<Rightarrow> 'f ZipCodeLocation \<Rightarrow> 'f ZipCodeLocation \<Rightarrow> 'f" where
  "DistanceInKm M zc zipcodeLocationA zipcodeLocationB =
     CalculateDistance M zc zipcodeLocationA zipcodeLocationB (F64 M earthRadiusKm)"

definition DistanceInMiles ::
  "'f gomath \<Rightarrow> 'f Zipcodes \<Rightarrow> 'f ZipCodeLocation \<Rightarrow> 'f ZipCodeLocation \<Rightarrow> 'f" where
  "DistanceInMiles M zc zipcodeLocationA zipcodeLocationB =
     CalculateDistance M zc zipcodeLocationA zipcodeLocationB (F64 M earthRadiusMi)"

definition DistanceInKmToZipCode ::
  "'f gomath \<Rightarrow> 'f Zipcodes \<Rightarrow> 'f ZipCodeLocation \<Rightarrow> 'f \<Rightarrow> 'f \<Rightarrow> 'f" where
  "DistanceInKmToZipCode M zc zipcodeLocation latitude longitude =
     DistanceBetweenPoints M (Lat zipcodeLocation) (Lon zipcodeLocation)
       latitude longitude (F64 M earthRadiusKm)"

definition DistanceInMilToZipCode ::
  "'f gomath \<Rightarrow> 'f Zipcodes \<Rightarrow> 'f ZipCodeLocation \<Rightarrow> 'f \<Rightarrow> 'f \<Rightarrow> 'f" where
  "DistanceInMilToZipCode M zc zipcodeLocation latitude longitude =
     DistanceBetweenPoints M (Lat zipcodeLocation) (Lon zipcodeLocation)
       latitude longitude (F64 M earthRadiusMi)"

section \<open>Radius search\<close>

text \<open>
  The inner loop of \<open>FindZipcodesWithinRadius\<close>, over the records of one key: it appends
  to \<open>zipcodeList\<close>.
\<close>

fun radius_inner ::
  "'f gomath \<Rightarrow> 'f ZipCodeLocation \<Rightarrow> 'f \<Rightarrow> 'f \<Rightarrow> 'f ZipCodeLocations \<Rightarrow> string list \<Rightarrow> string list" where
  "radius_inner M zipcodeLocation maxRadius earthRadius [] zipcodeList = zipcodeList"
| "radius_inner M zipcodeLocation maxRadius earthRadius (zcls # elm) zipcodeList =
     (if ZipCode zcls \<noteq> ZipCode zipcodeLocation then
        (let distance = DistanceBetweenPoints M (Lat zipcodeLocation) (Lon zipcodeLocation)
                          (Lat zcls) (Lon zcls) earthRadius
         in if Less M distance maxRadius
            then radius_inner M zipcodeLocation maxRadius earthRadius elm
                   (zipcodeList @ [ZipCode zcls])
            else radius_inner M zipcodeLocation maxRadius earthRadius elm zipcodeList)
      else radius_inner M zipcodeLocation maxRadius earthRadius elm zipcodeList)"

text \<open>
  The outer loop ranges over a Go map, whose iteration order the language leaves open.
  The order of one run is the argument \<open>keys\<close>: an enumeration of the keys of the map.
\<close>

fun radius_outer ::
  "'f gomath \<Rightarrow> 'f Zipcodes \<Rightarrow> 'f ZipCodeLocation \<Rightarrow> 'f \<Rightarrow> 'f \<Rightarrow> string list \<Rightarrow>
   string list \<Rightarrow> string list" where
  "radius_outer M zc zipcodeLocation maxRadius earthRadius [] zipcodeList = zipcodeList"
| "radius_outer M zc zipcodeLocation maxRadius earthRadius (k # keys) zipcodeList =
     (case DatasetList zc k of
        None \<Rightarrow> radius_outer M zc zipcodeLocation maxRadius earthRadius keys zipcodeList
      | Some elm \<Rightarrow>
          radius_outer M zc zipcodeLocation maxRadius earthRadius keys
            (radius_inner M zipcodeLocation maxRadius earthRadius elm zipcodeList))"

definition map_order :: "'f Zipcodes \<Rightarrow> string list \<Rightarrow> bool" where
  "map_order zc keys = (distinct keys \<and> set keys = dom (DatasetList zc))"

definition FindZipcodesWithinRadius ::
  "'f gomath \<Rightarrow> 'f Zipcodes \<Rightarrow> string list \<Rightarrow> 'f ZipCodeLocation \<Rightarrow> 'f \<Rightarrow> 'f \<Rightarrow> string list" where
  "FindZipcodesWithinRadius M zc keys zipcodeLocation maxRadius earthRadius =
     radius_outer M zc zipcodeLocation maxRadius earthRadius keys []"

definition GetZipcodesWithinKmRadius ::
  "'f gomath \<Rightarrow> 'f Zipcodes \<Rightarrow> string list \<Rightarrow> 'f ZipCodeLocation \<Rightarrow> 'f \<Rightarrow> string list" where
  "GetZipcodesWithinKmRadius M zc keys zipcodeLocation radius =
     FindZipcodesWithinRadius M zc keys zipcodeLocation radius (F64 M earthRadiusKm)"

definition GetZipcodesWithinMlRadius ::
  "'f gomath \<Rightarrow> 'f Zipcodes \<Rightarrow> string list \<Rightarrow> 'f ZipCodeLocation \<Rightarrow> 'f \<Rightarrow> string list" where
  "GetZipcodesWithinMlRadius M zc keys zipcodeLocation radius =
     FindZipcodesWithinRadius M zc keys zipcodeLocation radius (F64 M earthRadiusMi)"

section \<open>The loader\<close>

text \<open>
  \<open>loadDataset\<close> calls two functions of Go's standard library whose code is not part of
  the package. They are parameters of the model: \<open>strconv.ParseFloat(s, 64)\<close>, with
  \<^const>\<open>None\<close> where it returns an error, and \<open>strings.ToUpper\<close>.
\<close>

record 'f golib =
  ParseFloat :: "string \<Rightarrow> 'f option"
  ToUpper :: "string \<Rightarrow> string"

text \<open>
  What the file system does in one run: \<open>open_err\<close> is the error of \<open>os.Open\<close>, if any;
  \<open>lines\<close> are the values of \<open>scanner.Text()\<close> for the calls of \<open>scanner.Scan()\<close> that
  return true, in order; \<open>scan_err\<close> is what \<open>scanner.Err()\<close> reports after the loop.
\<close>

record source =
  open_err :: "string option"
  lines :: "string list"
  scan_err :: "string option"

text \<open>\<open>log.Fatal\<close> prints its argument and ends the process: the caller gets nothing back.\<close>

datatype 'a outcome = Fatal string | Return 'a

definition tab :: char where
  "tab = CHR 0x09"

text \<open>\<open>strings.Split(s, sep)\<close> for a separator of one byte.\<close>

fun Split :: "string \<Rightarrow> char \<Rightarrow> string list" where
  "Split [] sep = [[]]"
| "Split (c # s) sep =
     (if c = sep then [] # Split s sep
      else (case Split s sep of [] \<Rightarrow> [[c]] | w # ws \<Rightarrow> (c # w) # ws))"

text \<open>\<open>append(m[k], v)\<close> stored under \<open>k\<close>: a missing key reads as the nil slice.\<close>

definition append_at :: "'f Zipcodes \<Rightarrow> string \<Rightarrow> 'f ZipCodeLocation \<Rightarrow> 'f Zipcodes" where
  "append_at zipcodeMap k v =
     zipcodeMap\<lparr>DatasetList := (DatasetList zipcodeMap)
       (k \<mapsto> (case DatasetList zipcodeMap k of None \<Rightarrow> [] | Some vs \<Rightarrow> vs) @ [v])\<rparr>"

text \<open>
  The loop \<open>for scanner.Scan()\<close> of \<open>loadDataset\<close>, over the lines still to come, with
  the loop's variables \<open>inCountry\<close> and \<open>zipcodeMap\<close>. \<^const>\<open>Inl\<close> is a \<open>return\<close> with
  an error from inside the loop; \<^const>\<open>Inr\<close> is the map when the loop is left, at the
  end of the input or by \<open>break\<close>.
\<close>

fun scan_loop ::
  "'f golib \<Rightarrow> bool \<Rightarrow> string \<Rightarrow> string list \<Rightarrow> bool \<Rightarrow> 'f Zipcodes \<Rightarrow> error + 'f Zipcodes" where
  "scan_loop L wantCountry country [] inCountry zipcodeMap = Inr zipcodeMap"
| "scan_loop L wantCountry country (text # rest) inCountry zipcodeMap =
     (let splittedLine = Split text tab in
      if length splittedLine \<noteq> 12 then Inl ErrFieldCount
      else if \<not> wantCountry \<or> splittedLine ! 0 = country then
        (case ParseFloat L (splittedLine ! 9) of
           None \<Rightarrow> Inl (ErrLatitude (splittedLine ! 9))
         | Some lat \<Rightarrow>
             (case ParseFloat L (splittedLine ! 10) of
                None \<Rightarrow> Inl (ErrLongitude (splittedLine ! 10))
              | Some lon \<Rightarrow>
                  scan_loop L wantCountry country rest True
                    (append_at zipcodeMap (splittedLine ! 1)
                       \<lparr>ZipCode = splittedLine ! 1,
                        PlaceName = splittedLine ! 2,
                        AdminName = splittedLine ! 3,
                        Lat = lat,
                        Lon = lon,
                        StateCode = splittedLine ! 4\<rparr>)))
      else if inCountry \<and> splittedLine ! 0 \<noteq> country then Inr zipcodeMap
      else scan_loop L wantCountry country rest inCountry zipcodeMap)"

definition loadDataset ::
  "'f golib \<Rightarrow> source \<Rightarrow> string \<Rightarrow> ('f Zipcodes \<times> error option) outcome" where
  "loadDataset L src country =
     (let wantCountry = (country \<noteq> []);
          inCountry = False
      in if wantCountry \<and> length country \<noteq> 2 then Return (Zipcodes_zero, Some ErrCountryCode)
         else
           (let country = ToUpper L country in
            case open_err src of
              Some err \<Rightarrow> Fatal err
            | None \<Rightarrow>
                (case scan_loop L wantCountry country (lines src) inCountry
                        \<lparr>DatasetList = Map.empty\<rparr> of
                   Inl e \<Rightarrow> Return (Zipcodes_zero, Some e)
                 | Inr zipcodeMap \<Rightarrow>
                     (case scan_err src of
                        Some err \<Rightarrow> Return (Zipcodes_zero, Some (ErrOpeningFile err))
                      | None \<Rightarrow> Return (zipcodeMap, None)))))"

definition LoadDataset :: "'f golib \<Rightarrow> source \<Rightarrow> ('f Zipcodes \<times> error option) outcome" where
  "LoadDataset L src = loadDataset L src []"

definition LoadDatasetByCountry ::
  "'f golib \<Rightarrow> source \<Rightarrow> string \<Rightarrow> ('f Zipcodes \<times> error option) outcome" where
  "LoadDatasetByCountry L src country = loadDataset L src country"

definition New :: "'f golib \<Rightarrow> source \<Rightarrow> ('f Zipcodes \<times> error option) outcome" where
  "New L src = LoadDataset L src"

definition NewByCountry ::
  "'f golib \<Rightarrow> source \<Rightarrow> string \<Rightarrow> ('f Zipcodes \<times> error option) outcome" where
  "NewByCountry L src country = LoadDatasetByCountry L src country"

section \<open>Notions used to state the properties\<close>

text \<open>
  The fields of a line, and whether its country field is the filter's. \<^const>\<open>hd\<close> is
  safe here: \<^const>\<open>Split\<close> never returns the empty list.
\<close>

definition fields_of :: "string \<Rightarrow> string list" where
  "fields_of l = Split l tab"

definition matches :: "string \<Rightarrow> string \<Rightarrow> bool" where
  "matches country l = (hd (fields_of l) = country)"

text \<open>
  The scan as the specification words it. With a filter, the lines before the first
  matching line are skipped, the matching lines that follow one another are accepted, and
  the first line after them ends the scan; the scanned lines are these three parts.
  Without a filter every line is scanned and accepted.
\<close>

definition accepted_lines :: "bool \<Rightarrow> string \<Rightarrow> string list \<Rightarrow> string list" where
  "accepted_lines wantCountry country ls =
     (if wantCountry
      then takeWhile (matches country) (dropWhile (\<lambda>l. \<not> matches country l) ls)
      else ls)"

definition scanned_lines :: "bool \<Rightarrow> string \<Rightarrow> string list \<Rightarrow> string list" where
  "scanned_lines wantCountry country ls =
     (if wantCountry
      then takeWhile (\<lambda>l. \<not> matches country l) ls @
           takeWhile (matches country) (dropWhile (\<lambda>l. \<not> matches country l) ls) @
           take 1 (dropWhile (matches country) (dropWhile (\<lambda>l. \<not> matches country l) ls))
      else ls)"

text \<open>
  \<open>built_from L l r\<close>: the record \<open>r\<close> holds the fields 1, 2, 3 and 4 of the line \<open>l\<close>
  and the parsed values of its fields 9 and 10. \<open>location_of\<close> is that record, for a line
  whose coordinates parse.
\<close>

definition built_from :: "'f golib \<Rightarrow> string \<Rightarrow> 'f ZipCodeLocation \<Rightarrow> bool" where
  "built_from L l r =
     (let f = fields_of l in
      ZipCode r = f ! 1 \<and> PlaceName r = f ! 2 \<and> AdminName r = f ! 3 \<and>
      ParseFloat L (f ! 9) = Some (Lat r) \<and> ParseFloat L (f ! 10) = Some (Lon r) \<and>
      StateCode r = f ! 4)"

definition location_of :: "'f golib \<Rightarrow> string \<Rightarrow> 'f ZipCodeLocation" where
  "location_of L l =
     (let f = fields_of l in
      \<lparr>ZipCode = f ! 1, PlaceName = f ! 2, AdminName = f ! 3,
       Lat = the (ParseFloat L (f ! 9)), Lon = the (ParseFloat L (f ! 10)),
       StateCode = f ! 4\<rparr>)"

text \<open>
  The error that a line raises when the loop reaches it, if any, and the first error of a
  list of lines. \<open>insert_all\<close> appends the records of a list of lines to the index, in
  order.
\<close>

definition line_error :: "'f golib \<Rightarrow> bool \<Rightarrow> string \<Rightarrow> string \<Rightarrow> error option" where
  "line_error L wantCountry country l =
     (let f = fields_of l in
      if length f \<noteq> 12 then Some ErrFieldCount
      else if wantCountry \<and> \<not> matches country l then None
      else if ParseFloat L (f ! 9) = None then Some (ErrLatitude (f ! 9))
      else if ParseFloat L (f ! 10) = None then Some (ErrLongitude (f ! 10))
      else None)"

fun first_error :: "'f golib \<Rightarrow> bool \<Rightarrow> string \<Rightarrow> string list \<Rightarrow> error option" where
  "first_error L wantCountry country [] = None"
| "first_error L wantCountry country (l # ls) =
     (case line_error L wantCountry country l of
        Some e \<Rightarrow> Some e
      | None \<Rightarrow> first_error L wantCountry country ls)"

definition insert_all :: "'f golib \<Rightarrow> string list \<Rightarrow> 'f Zipcodes \<Rightarrow> 'f Zipcodes" where
  "insert_all L ls zm = foldl (\<lambda>zm l. append_at zm (fields_of l ! 1) (location_of L l)) zm ls"


text \<open>
  What the radius search is to return: the codes of the records within the radius whose
  code is not the origin's, over all keys. It is a multiset, since the order of the result
  follows the enumeration of the keys.
\<close>

definition in_radius ::
  "'f gomath \<Rightarrow> 'f ZipCodeLocation \<Rightarrow> 'f \<Rightarrow> 'f \<Rightarrow> 'f ZipCodeLocation \<Rightarrow> bool" where
  "in_radius M origin maxRadius earthRadius r =
     (ZipCode r \<noteq> ZipCode origin \<and>
      Less M (DistanceBetweenPoints M (Lat origin) (Lon origin) (Lat r) (Lon r) earthRadius)
        maxRadius)"

definition codes_within ::
  "'f gomath \<Rightarrow> 'f Zipcodes \<Rightarrow> 'f ZipCodeLocation \<Rightarrow> 'f \<Rightarrow> 'f \<Rightarrow> string multiset" where
  "codes_within M zc origin maxRadius earthRadius =
     (\<Sum>k\<in>dom (DatasetList zc).
        mset (map ZipCode
               (filter (in_radius M origin maxRadius earthRadius) (the (DatasetList zc k)))))"

section \<open>Example data\<close>

definition example_zc :: "real Zipcodes" where
  "example_zc = \<lparr>DatasetList = [
      ''01945'' \<mapsto> [\<lparr>ZipCode = ''01945'', PlaceName = ''Guteborn'', AdminName = ''Brandenburg'',
                     Lat = 51.4167, Lon = 13.9333, StateCode = ''BB''\<rparr>],
      ''03058'' \<mapsto> [\<lparr>ZipCode = ''03058'', PlaceName = ''Gallinchen'', AdminName = ''Brandenburg'',
                     Lat = 51.7, Lon = 14.3667, StateCode = ''BB''\<rparr>,
                    \<lparr>ZipCode = ''03058'', PlaceName = ''Kiekebusch'', AdminName = ''Brandenburg'',
                     Lat = 51.7167, Lon = 14.3667, StateCode = ''BB''\<rparr>]]\<rparr>"

text \<open>
  The examples take the real numbers for \<open>float64\<close>, and an interpretation of the two
  library functions: \<open>decimal\<close> reads an optional sign, digits and an optional fraction,
  and rejects everything else; \<open>ascii_upper\<close> maps the letters a to z to A to Z. On the
  strings of the examples they accept, reject and upper-case as \<open>strconv.ParseFloat\<close>
  and \<open>strings.ToUpper\<close> do.
\<close>

definition ascii_upper :: "char \<Rightarrow> char" where
  "ascii_upper c =
     (case map_of (zip ''abcdefghijklmnopqrstuvwxyz'' ''ABCDEFGHIJKLMNOPQRSTUVWXYZ'') c of
        None \<Rightarrow> c
      | Some u \<Rightarrow> u)"

definition digit :: "char \<Rightarrow> nat option" where
  "digit c = (let n = of_char c :: nat in if 48 \<le> n \<and> n \<le> 57 then Some (n - 48) else None)"

fun digits_val :: "string \<Rightarrow> nat \<Rightarrow> nat option" where
  "digits_val [] acc = Some acc"
| "digits_val (c # s) acc =
     (case digit c of None \<Rightarrow> None | Some d \<Rightarrow> digits_val s (10 * acc + d))"

definition unsigned_decimal :: "string \<Rightarrow> real option" where
  "unsigned_decimal s =
     (case Split s (CHR ''.'') of
        [ip] \<Rightarrow> (if ip = [] then None else map_option real (digits_val ip 0))
      | [ip, fp] \<Rightarrow>
          (if ip = [] \<and> fp = [] then None
           else (case (digits_val ip 0, digits_val fp 0) of
                   (Some a, Some b) \<Rightarrow> Some (real a + real b / 10 ^ length fp)
                 | _ \<Rightarrow> None))
      | _ \<Rightarrow> None)"

definition decimal :: "string \<Rightarrow> real option" where
  "decimal s =
     (case s of
        [] \<Rightarrow> None
      | c # t \<Rightarrow>
          if c = CHR ''-'' then map_option uminus (unsigned_decimal t)
          else if c = CHR ''+'' then unsigned_decimal t
          else unsigned_decimal s)"

definition example_lib :: "real golib" where
  "example_lib = \<lparr>ParseFloat = decimal, ToUpper = map ascii_upper\<rparr>"

text \<open>
  A source in the format of the GeoNames files, not grouped by country: 12 fields joined
  by tabs, the country first, the coordinates in fields 9 and 10. Two lines of another
  country have a coordinate that does not parse, and the last line has 3 fields only.
\<close>

fun tabbed :: "string list \<Rightarrow> string" where
  "tabbed [] = []"
| "tabbed [f] = f"
| "tabbed (f # g # fs) = f @ tab # tabbed (g # fs)"

definition example_lines :: "string list" where
  "example_lines =
     [tabbed [''US'', ''99553'', ''Akutan'', ''Alaska'', ''AK'', ''Aleutians East'', ''013'',
              '''', '''', ''WRONG'', ''-165.7854'', ''1''],
      tabbed [''DE'', ''01945'', ''Guteborn'', ''Brandenburg'', ''BB'', '''', ''00'',
              ''Oberspreewald-Lausitz'', ''12066'', ''51.4167'', ''13.9333'', ''''],
      tabbed [''DE'', ''03058'', ''Gallinchen'', ''Brandenburg'', ''BB'', '''', ''00'',
              ''Spree-Neisse'', ''12071'', ''51.7'', ''14.3667'', ''''],
      tabbed [''DE'', ''03058'', ''Kiekebusch'', ''Brandenburg'', ''BB'', '''', ''00'',
              ''Spree-Neisse'', ''12071'', ''51.7167'', ''14.3667'', ''''],
      tabbed [''US'', ''99571'', ''Cold Bay'', ''Alaska'', ''AK'', ''Aleutians East'', ''013'',
              '''', '''', ''55.1858'', ''WRONG'', ''1''],
      tabbed [''DE'', ''20457'', ''Hamburg'', ''Hamburg'', ''HH'', '''', ''00'',
              ''Hamburg'', ''02000'', ''53.5333'', ''10'', ''''],
      tabbed [''DE'', ''22525'', ''Hamburg'']]"

definition example_src :: source where
  "example_src = \<lparr>open_err = None, lines = example_lines, scan_err = None\<rparr>"

text \<open>
  The index that loading the example source with the filter \<open>de\<close> builds.
\<close>

definition example_index :: "real Zipcodes" where
  "example_index =
     append_at (append_at (append_at \<lparr>DatasetList = Map.empty\<rparr>
       ''01945'' \<lparr>ZipCode = ''01945'', PlaceName = ''Guteborn'', AdminName = ''Brandenburg'',
                  Lat = 51.4167, Lon = 13.9333, StateCode = ''BB''\<rparr>)
       ''03058'' \<lparr>ZipCode = ''03058'', PlaceName = ''Gallinchen'', AdminName = ''Brandenburg'',
                  Lat = 51.7, Lon = 14.3667, StateCode = ''BB''\<rparr>)
       ''03058'' \<lparr>ZipCode = ''03058'', PlaceName = ''Kiekebusch'', AdminName = ''Brandenburg'',
                  Lat = 51.7167, Lon = 14.3667, StateCode = ''BB''\<rparr>"

text \<open>
  A source whose second line has 3 fields, and a path that cannot be opened.
\<close>

definition example_short :: source where
  "example_short =
     \<lparr>open_err = None,
      lines = [example_lines ! 1, tabbed [''US'', ''99553'', ''Akutan'']],
      scan_err = None\<rparr>"

definition example_missing :: source where
  "example_missing =
     \<lparr>open_err = Some ''open datasets/missing.txt: no such file or directory'',
      lines = [],
      scan_err = None\<rparr>"


text \<open>
  An index with two records at the same coordinates under different codes.
\<close>

definition example_guteborn :: "real ZipCodeLocation" where
  "example_guteborn =
     \<lparr>ZipCode = ''01945'', PlaceName = ''Guteborn'', AdminName = ''Brandenburg'',
      Lat = 51.4167, Lon = 13.9333, StateCode = ''BB''\<rparr>"

definition example_near :: "real Zipcodes" where
  "example_near = \<lparr>DatasetList = [
      ''01945'' \<mapsto> [example_guteborn],
      ''01990'' \<mapsto> [\<lparr>ZipCode = ''01990'', PlaceName = ''Ortrand'', AdminName = ''Brandenburg'',
                     Lat = 51.4167, Lon = 13.9333, StateCode = ''BB''\<rparr>]]\<rparr>"


text \<open>
  An interpretation of the arithmetic for the example of the radius search: the exact
  operations on the real numbers. It is not the arithmetic of the machine; the example
  uses it at two equal points only, where the machine computes the distance 0 as well.
\<close>

definition real_atan2 :: "real \<Rightarrow> real \<Rightarrow> real" where
  "real_atan2 y x =
     (if 0 < x then arctan (y / x)
      else if x < 0 then (if 0 \<le> y then arctan (y / x) + pi else arctan (y / x) - pi)
      else if 0 < y then pi / 2
      else if y < 0 then - (pi / 2)
      else 0)"

definition real_round :: "real \<Rightarrow> real" where
  "real_round x = (if x < 0 then - of_int \<lfloor>- x + 1 / 2\<rfloor> else of_int \<lfloor>x + 1 / 2\<rfloor>)"

definition exact_math :: "real gomath" where
  "exact_math =
     \<lparr>F64 = of_int, Add = (+), Sub = (-), Mul = (*), Div = (/), Less = (<), MathPi = pi,
      Sin = sin, Cos = cos, Sqrt = sqrt,
      Pow = (\<lambda>x y. if y = 2 then x * x else x powr y),
      Atan2 = real_atan2, Round = real_round\<rparr>"

section \<open>Properties of the radius search\<close>

lemma radius_inner_eq:
  "radius_inner M origin m e elm acc = acc @ map ZipCode (filter (in_radius M origin m e) elm)"
  by (induction elm arbitrary: acc) (simp_all add: in_radius_def Let_def)

lemma radius_outer_eq:
  "radius_outer M zc origin m e keys acc =
     acc @ concat (map (\<lambda>k. map ZipCode (filter (in_radius M origin m e)
                                (case DatasetList zc k of None \<Rightarrow> [] | Some elm \<Rightarrow> elm))) keys)"
  by (induction keys arbitrary: acc) (simp_all add: radius_inner_eq split: option.splits)

lemma FindZipcodesWithinRadius_mset:
  assumes "map_order zc keys"
  shows "mset (FindZipcodesWithinRadius M zc keys origin m e) = codes_within M zc origin m e"
proof -
  let ?f = "\<lambda>k. mset (map ZipCode (filter (in_radius M origin m e)
              (case DatasetList zc k of None \<Rightarrow> [] | Some elm \<Rightarrow> elm)))"
  have d: "distinct keys" and s: "set keys = dom (DatasetList zc)"
    using assms by (simp_all add: map_order_def)
  have "mset (FindZipcodesWithinRadius M zc keys origin m e) = (\<Sum>k\<leftarrow>keys. ?f k)"
    by (simp add: FindZipcodesWithinRadius_def radius_outer_eq mset_concat comp_def)
  also have "\<dots> = (\<Sum>k\<in>set keys. ?f k)"
    using d by (rule sum_list_distinct_conv_sum_set)
  also have "\<dots> = codes_within M zc origin m e"
    unfolding codes_within_def s by (rule sum.cong) auto
  finally show ?thesis .
qed

lemma FindZipcodesWithinRadius_not_origin:
  "ZipCode origin \<notin> set (FindZipcodesWithinRadius M zc keys origin m e)"
  by (auto simp: FindZipcodesWithinRadius_def radius_outer_eq in_radius_def)

lemma exact_distance_self: "DistanceBetweenPoints exact_math la lo la lo r = 0"
  by (simp add: DistanceBetweenPoints_def degreesToRadians_def hsin_def exact_math_def
        real_atan2_def real_round_def)

text \<open>
  C3. For every index, every order in which the run-time enumerates its keys, every origin
  and every radius: the codes returned by the radius search in kilometres and in miles are,
  with their multiplicities, the codes of the records under all keys whose code differs
  from the origin's and whose distance from the origin is strictly less than the radius.
  The origin's code is never in the result. The distance is the value that
  \<open>DistanceBetweenPoints\<close> returns, and the comparison is the machine's, so a distance
  that is NaN is less than no radius.
\<close>

theorem radius_search:
  assumes "map_order zc keys"
  shows "mset (GetZipcodesWithinKmRadius M zc keys origin radius) =
           codes_within M zc origin radius (F64 M 6371) \<and>
         mset (GetZipcodesWithinMlRadius M zc keys origin radius) =
           codes_within M zc origin radius (F64 M 3958) \<and>
         ZipCode origin \<notin> set (GetZipcodesWithinKmRadius M zc keys origin radius) \<and>
         ZipCode origin \<notin> set (GetZipcodesWithinMlRadius M zc keys origin radius)"
  using assms
  by (simp add: GetZipcodesWithinKmRadius_def GetZipcodesWithinMlRadius_def
        FindZipcodesWithinRadius_mset FindZipcodesWithinRadius_not_origin
        earthRadiusKm_def earthRadiusMi_def)

theorem radius_search_witness:
  "map_order example_near [''01990'', ''01945''] \<and>
   GetZipcodesWithinKmRadius exact_math example_near [''01990'', ''01945''] example_guteborn 50 =
     [''01990''] \<and>
   codes_within exact_math example_near example_guteborn 50 (F64 exact_math 6371) =
     {#''01990''#} \<and>
   ZipCode example_guteborn \<notin>
     set (GetZipcodesWithinKmRadius exact_math example_near [''01990'', ''01945'']
            example_guteborn 50)"
proof -
  have m: "map_order example_near [''01990'', ''01945'']"
    by (auto simp: map_order_def example_near_def)
  have l: "Less exact_math 0 50"
    by (simp add: exact_math_def)
  have g: "GetZipcodesWithinKmRadius exact_math example_near [''01990'', ''01945'']
             example_guteborn 50 = [''01990'']"
    using l
    by (simp add: GetZipcodesWithinKmRadius_def FindZipcodesWithinRadius_def example_near_def
          example_guteborn_def exact_distance_self)
  show ?thesis
    using radius_search [OF m, of exact_math example_guteborn 50] m g by simp
qed

section \<open>Properties of the loader\<close>

text \<open>
  The loop is characterised by the first error among the scanned lines and, when there is
  none, by the accepted lines inserted in order.
\<close>

lemma Split_not_Nil: "Split s sep \<noteq> []"
  by (induction s) (auto split: list.splits)

lemma matches_nth: "matches c l = (fields_of l ! 0 = c)"
  by (simp add: matches_def fields_of_def hd_conv_nth Split_not_Nil)

lemma insert_all_Nil: "insert_all L [] zm = zm"
  by (simp add: insert_all_def)

lemma insert_all_Cons:
  "insert_all L (l # ls) zm = insert_all L ls (append_at zm (fields_of l ! 1) (location_of L l))"
  by (simp add: insert_all_def)

lemma scan_loop_nofilter:
  "scan_loop L False c ls inC zm =
     (case first_error L False c ls of Some e \<Rightarrow> Inl e | None \<Rightarrow> Inr (insert_all L ls zm))"
proof (induction ls arbitrary: inC zm)
  case Nil
  show ?case by (simp add: insert_all_Nil)
next
  case (Cons l ls)
  show ?case
    by (auto simp: Cons.IH insert_all_Cons line_error_def location_of_def Let_def
          fields_of_def [symmetric] split: option.splits)
qed

lemma scan_loop_in:
  "scan_loop L True c ls True zm =
     (case first_error L True c (takeWhile (matches c) ls @ take 1 (dropWhile (matches c) ls)) of
        Some e \<Rightarrow> Inl e
      | None \<Rightarrow> Inr (insert_all L (takeWhile (matches c) ls) zm))"
proof (induction ls arbitrary: zm)
  case Nil
  show ?case by (simp add: insert_all_Nil)
next
  case (Cons l ls)
  show ?case
    by (auto simp: Cons.IH insert_all_Cons insert_all_Nil line_error_def location_of_def Let_def
          matches_nth fields_of_def [symmetric] split: option.splits)
qed

lemma scan_loop_out:
  "scan_loop L True c ls False zm =
     (case first_error L True c (scanned_lines True c ls) of
        Some e \<Rightarrow> Inl e
      | None \<Rightarrow> Inr (insert_all L (accepted_lines True c ls) zm))"
proof (induction ls arbitrary: zm)
  case Nil
  show ?case by (simp add: insert_all_Nil scanned_lines_def accepted_lines_def)
next
  case (Cons l ls)
  show ?case
    by (auto simp: Cons.IH scan_loop_in insert_all_Cons insert_all_Nil line_error_def
          location_of_def Let_def scanned_lines_def accepted_lines_def
          matches_nth fields_of_def [symmetric] split: option.splits)
qed


lemma DatasetList_insert_all:
  "DatasetList (insert_all L ls zm) code =
     (let new = map (location_of L) (filter (\<lambda>l. fields_of l ! 1 = code) ls) in
      if new = [] then DatasetList zm code
      else Some ((case DatasetList zm code of None \<Rightarrow> [] | Some vs \<Rightarrow> vs) @ new))"
proof (induction ls arbitrary: zm)
  case Nil
  show ?case by (simp add: insert_all_Nil)
next
  case (Cons l ls)
  show ?case
    by (simp add: insert_all_Cons Cons.IH append_at_def Let_def)
qed

lemma first_error_None_iff:
  "first_error L w c ls = None \<longleftrightarrow> (\<forall>l\<in>set ls. line_error L w c l = None)"
  by (induction ls) (auto split: option.splits)

lemma first_error_Some:
  "first_error L w c ls = Some e \<Longrightarrow> \<exists>l\<in>set ls. line_error L w c l = Some e"
  by (induction ls) (auto split: option.splits)

lemma accepted_subset_scanned:
  "set (accepted_lines w c ls) \<subseteq> set (scanned_lines w c ls)"
  by (auto simp: accepted_lines_def scanned_lines_def)

lemma scanned_subset_lines:
  "set (scanned_lines w c ls) \<subseteq> set ls"
  by (auto simp: scanned_lines_def dest: set_takeWhileD set_dropWhileD in_set_takeD)

lemma accepted_matches:
  "l \<in> set (accepted_lines True c ls) \<Longrightarrow> matches c l"
  by (auto simp: accepted_lines_def dest: set_takeWhileD)

lemma lines_nofilter:
  "accepted_lines False c ls = ls" "scanned_lines False c ls = ls"
  by (simp_all add: accepted_lines_def scanned_lines_def)

lemma scan_loop_char:
  "scan_loop L w c ls False zm =
     (case first_error L w c (scanned_lines w c ls) of
        Some e \<Rightarrow> Inl e
      | None \<Rightarrow> Inr (insert_all L (accepted_lines w c ls) zm))"
proof (cases w)
  case True
  then have w: "w = True" by simp
  show ?thesis unfolding w by (rule scan_loop_out)
next
  case False
  then have w: "w = False" by simp
  show ?thesis unfolding w lines_nofilter by (rule scan_loop_nofilter)
qed

lemma loadDataset_char:
  assumes "country = [] \<or> length country = 2" and "open_err src = None"
  shows "loadDataset L src country =
     (case first_error L (country \<noteq> []) (ToUpper L country)
             (scanned_lines (country \<noteq> []) (ToUpper L country) (lines src)) of
        Some e \<Rightarrow> Return (Zipcodes_zero, Some e)
      | None \<Rightarrow>
          (case scan_err src of
             Some err \<Rightarrow> Return (Zipcodes_zero, Some (ErrOpeningFile err))
           | None \<Rightarrow>
               Return (insert_all L (accepted_lines (country \<noteq> []) (ToUpper L country) (lines src))
                         \<lparr>DatasetList = Map.empty\<rparr>, None)))"
  using assms by (auto simp: loadDataset_def Let_def scan_loop_char split: option.splits)

lemma loadDataset_success:
  assumes "loadDataset L src country = Return (zc, None)"
  shows "(country = [] \<or> length country = 2) \<and> open_err src = None \<and> scan_err src = None \<and>
         first_error L (country \<noteq> []) (ToUpper L country)
           (scanned_lines (country \<noteq> []) (ToUpper L country) (lines src)) = None \<and>
         zc = insert_all L (accepted_lines (country \<noteq> []) (ToUpper L country) (lines src))
                \<lparr>DatasetList = Map.empty\<rparr>"
proof -
  have c: "country = [] \<or> length country = 2"
    using assms by (auto simp: loadDataset_def Let_def split: if_splits)
  have "open_err src \<noteq> Some err" for err
    using assms c by (auto simp: loadDataset_def Let_def split: if_splits)
  then have opn: "open_err src = None"
    by (cases "open_err src") auto
  show ?thesis
    using assms c opn unfolding loadDataset_char [OF c opn]
    by (auto split: option.splits)
qed

lemma line_error_None:
  assumes "line_error L w c l = None" and "w \<longrightarrow> matches c l"
  shows "length (fields_of l) = 12 \<and>
         (\<exists>lat lon. ParseFloat L (fields_of l ! 9) = Some lat \<and> ParseFloat L (fields_of l ! 10) = Some lon)"
  using assms by (auto simp: line_error_def Let_def split: if_splits)

lemma accepted_matches_if:
  "l \<in> set (accepted_lines w c ls) \<Longrightarrow> w \<longrightarrow> matches c l"
  by (cases w) (auto dest: accepted_matches)

lemma built_from_location_of:
  assumes "ParseFloat L (fields_of l ! 9) = Some lat" and "ParseFloat L (fields_of l ! 10) = Some lon"
  shows "built_from L l (location_of L l)"
  using assms by (simp add: built_from_def location_of_def Let_def)

lemma accepted_ok:
  assumes "first_error L w c (scanned_lines w c ls) = None" and "l \<in> set (accepted_lines w c ls)"
  shows "length (fields_of l) = 12 \<and> built_from L l (location_of L l)"
proof -
  have "l \<in> set (scanned_lines w c ls)"
    using assms(2) accepted_subset_scanned by blast
  then have "line_error L w c l = None"
    using assms(1) by (simp add: first_error_None_iff)
  then show ?thesis
    using line_error_None [of L w c l] accepted_matches_if [OF assms(2)]
    by (auto intro: built_from_location_of)
qed

text \<open>
  C2. When \<open>loadDataset\<close> returns an index and no error, every code carried by an
  accepted line is found by \<open>Lookup\<close>: the slice returned is not empty, and its records
  are, one for one and in the order of the source, the records built from the accepted
  lines that carry that code.
\<close>

theorem roundtrip_lookup:
  assumes "loadDataset L src country = Return (zc, None)"
    and "l \<in> set (accepted_lines (country \<noteq> []) (ToUpper L country) (lines src))"
  shows "fst (Lookup zc (fields_of l ! 1)) \<noteq> [] \<and>
         snd (Lookup zc (fields_of l ! 1)) \<noteq> Some ErrZipcodeNotFound \<and>
         list_all2 (built_from L)
           (filter (\<lambda>l'. fields_of l' ! 1 = fields_of l ! 1)
              (accepted_lines (country \<noteq> []) (ToUpper L country) (lines src)))
           (fst (Lookup zc (fields_of l ! 1)))"
proof -
  define acc where "acc = accepted_lines (country \<noteq> []) (ToUpper L country) (lines src)"
  define sel where "sel = filter (\<lambda>l'. fields_of l' ! 1 = fields_of l ! 1) acc"
  have fe: "first_error L (country \<noteq> []) (ToUpper L country)
              (scanned_lines (country \<noteq> []) (ToUpper L country) (lines src)) = None"
    and zc: "zc = insert_all L acc \<lparr>DatasetList = Map.empty\<rparr>"
    using loadDataset_success [OF assms(1)] by (simp_all add: acc_def)
  have "l \<in> set sel"
    using assms(2) by (simp add: sel_def acc_def)
  then have ne: "sel \<noteq> []" by auto
  have d: "DatasetList zc (fields_of l ! 1) = Some (map (location_of L) sel)"
    using ne by (simp add: zc DatasetList_insert_all sel_def Let_def)
  have "list_all2 (built_from L) sel (map (location_of L) sel)"
    unfolding list_all2_map2
  proof (rule list_all2_same [THEN iffD2], rule ballI)
    fix x assume "x \<in> set sel"
    then have "x \<in> set acc" by (simp add: sel_def)
    then show "built_from L x (location_of L x)"
      using accepted_ok [OF fe] by (simp add: acc_def)
  qed
  then show ?thesis
    using ne d by (simp add: Lookup_def sel_def acc_def)
qed

lemmas example_eval = example_lib_def example_src_def example_lines_def tab_def
        ascii_upper_def decimal_def unsigned_decimal_def digit_def Let_def

lemma example_fields:
  "map fields_of example_lines =
     [[''US'', ''99553'', ''Akutan'', ''Alaska'', ''AK'', ''Aleutians East'', ''013'',
       '''', '''', ''WRONG'', ''-165.7854'', ''1''],
      [''DE'', ''01945'', ''Guteborn'', ''Brandenburg'', ''BB'', '''', ''00'',
       ''Oberspreewald-Lausitz'', ''12066'', ''51.4167'', ''13.9333'', ''''],
      [''DE'', ''03058'', ''Gallinchen'', ''Brandenburg'', ''BB'', '''', ''00'',
       ''Spree-Neisse'', ''12071'', ''51.7'', ''14.3667'', ''''],
      [''DE'', ''03058'', ''Kiekebusch'', ''Brandenburg'', ''BB'', '''', ''00'',
       ''Spree-Neisse'', ''12071'', ''51.7167'', ''14.3667'', ''''],
      [''US'', ''99571'', ''Cold Bay'', ''Alaska'', ''AK'', ''Aleutians East'', ''013'',
       '''', '''', ''55.1858'', ''WRONG'', ''1''],
      [''DE'', ''20457'', ''Hamburg'', ''Hamburg'', ''HH'', '''', ''00'',
       ''Hamburg'', ''02000'', ''53.5333'', ''10'', ''''],
      [''DE'', ''22525'', ''Hamburg'']]"
  by (simp add: example_lines_def fields_of_def tab_def)

lemma example_accepted:
  "accepted_lines True ''DE'' example_lines = [example_lines ! 1, example_lines ! 2, example_lines ! 3]"
  by (simp add: accepted_lines_def matches_def fields_of_def example_lines_def tab_def)

lemma example_scanned:
  "scanned_lines True ''DE'' example_lines = take 5 example_lines"
  by (simp add: scanned_lines_def matches_def fields_of_def example_lines_def tab_def)

lemma example_load_de:
  "loadDataset example_lib example_src ''de'' = Return (example_index, None)"
  by (simp add: loadDataset_def example_eval example_index_def)

lemma example_load_all:
  "loadDataset example_lib example_src [] = Return (Zipcodes_zero, Some (ErrLatitude ''WRONG''))"
  by (simp add: loadDataset_def example_eval)

lemma example_upper: "ToUpper example_lib ''de'' = ''DE''"
  by (simp add: example_lib_def ascii_upper_def)

theorem roundtrip_lookup_witness:
  "loadDataset example_lib example_src ''de'' = Return (example_index, None) \<and>
   example_lines ! 2 \<in> set (accepted_lines True ''DE'' example_lines) \<and>
   fields_of (example_lines ! 2) ! 1 = ''03058'' \<and>
   fst (Lookup example_index ''03058'') \<noteq> [] \<and>
   list_all2 (built_from example_lib) [example_lines ! 2, example_lines ! 3]
     (fst (Lookup example_index ''03058''))"
proof -
  have f: "fields_of (example_lines ! 1) ! 1 = ''01945''" "fields_of (example_lines ! 2) ! 1 = ''03058''"
    "fields_of (example_lines ! 3) ! 1 = ''03058''"
    by (simp_all add: example_lines_def fields_of_def tab_def)
  have m: "example_lines ! 2 \<in>
      set (accepted_lines (''de'' \<noteq> []) (ToUpper example_lib ''de'') (lines example_src))"
    by (simp add: example_upper example_accepted example_src_def)
  have l: "lines example_src = example_lines"
    by (simp add: example_src_def)
  show ?thesis
    using roundtrip_lookup [OF example_load_de m] f
    by (simp add: example_load_de example_upper example_accepted l)
qed


lemma loadDataset_failure:
  assumes "loadDataset L src country = Return (zc, Some e)"
  shows "zc = Zipcodes_zero"
  using assms
  by (auto simp: loadDataset_def Let_def split: if_splits option.splits sum.splits)

lemma scanned_matching_accepted:
  assumes "l \<in> set (scanned_lines True c ls)" and "matches c l"
  shows "l \<in> set (accepted_lines True c ls)"
proof -
  define rest where "rest = dropWhile (\<lambda>l. \<not> matches c l) ls"
  have "l \<notin> set (takeWhile (\<lambda>l. \<not> matches c l) ls)"
    using assms(2) by (auto dest: set_takeWhileD)
  moreover have "l \<notin> set (take 1 (dropWhile (matches c) rest))"
  proof
    assume a: "l \<in> set (take 1 (dropWhile (matches c) rest))"
    then have ne: "dropWhile (matches c) rest \<noteq> []"
      by (auto simp del: dropWhile_eq_Nil_conv)
    then have "l = hd (dropWhile (matches c) rest)"
      using a by (cases "dropWhile (matches c) rest") auto
    then show False
      using hd_dropWhile [OF ne] assms(2) by simp
  qed
  ultimately show ?thesis
    using assms(1) by (auto simp: scanned_lines_def accepted_lines_def rest_def)
qed

lemma first_error_exists:
  assumes "l \<in> set ls" and "line_error L w c l \<noteq> None"
  shows "\<exists>e. first_error L w c ls = Some e"
  using assms first_error_None_iff [of L w c ls] by (cases "first_error L w c ls") auto

lemma scan_loop_in_scanned:
  "scan_loop L True c (takeWhile (matches c) ls @ take 1 (dropWhile (matches c) ls)) True zm =
   scan_loop L True c ls True zm"
  by (induction ls arbitrary: zm)
     (auto simp: Let_def matches_nth fields_of_def [symmetric] split: option.splits)

lemma scan_loop_scanned:
  "scan_loop L True c (scanned_lines True c ls) False zm = scan_loop L True c ls False zm"
proof (induction ls arbitrary: zm)
  case Nil
  show ?case by (simp add: scanned_lines_def)
next
  case (Cons l ls)
  show ?case
  proof (cases "matches c l")
    case True
    then have "scanned_lines True c (l # ls) =
        l # (takeWhile (matches c) ls @ take 1 (dropWhile (matches c) ls))"
      by (simp add: scanned_lines_def)
    then show ?thesis
      using True
      by (auto simp: Let_def matches_nth scan_loop_in_scanned fields_of_def [symmetric]
            simp del: One_nat_def split: option.splits)
  next
    case False
    then have "scanned_lines True c (l # ls) = l # scanned_lines True c ls"
      by (simp add: scanned_lines_def)
    then show ?thesis
      using False Cons.IH
      by (auto simp: Let_def matches_nth fields_of_def [symmetric] split: option.splits)
  qed
qed

lemma scan_loop_in_accepted:
  assumes "\<forall>l\<in>set (takeWhile (matches c) ls @ take 1 (dropWhile (matches c) ls)).
             length (fields_of l) = 12"
  shows "scan_loop L True c (takeWhile (matches c) ls) True zm = scan_loop L True c ls True zm"
  using assms
  by (induction ls arbitrary: zm)
     (auto simp: Let_def matches_nth fields_of_def [symmetric] split: option.splits)

lemma scan_loop_accepted:
  assumes "\<forall>l\<in>set (scanned_lines True c ls). length (fields_of l) = 12"
  shows "scan_loop L True c (accepted_lines True c ls) False zm = scan_loop L True c ls False zm"
  using assms
proof (induction ls arbitrary: zm)
  case Nil
  show ?case by (simp add: accepted_lines_def)
next
  case (Cons l ls)
  show ?case
  proof (cases "matches c l")
    case True
    then have s: "scanned_lines True c (l # ls) =
        l # (takeWhile (matches c) ls @ take 1 (dropWhile (matches c) ls))"
      and a: "accepted_lines True c (l # ls) = l # takeWhile (matches c) ls"
      by (simp_all add: scanned_lines_def accepted_lines_def)
    have "\<forall>l\<in>set (takeWhile (matches c) ls @ take 1 (dropWhile (matches c) ls)).
             length (fields_of l) = 12"
      using Cons.prems unfolding s by simp
    then show ?thesis
      using True unfolding a
      by (auto simp: Let_def matches_nth scan_loop_in_accepted fields_of_def [symmetric]
            simp del: One_nat_def split: option.splits)
  next
    case False
    then have s: "scanned_lines True c (l # ls) = l # scanned_lines True c ls"
      and a: "accepted_lines True c (l # ls) = accepted_lines True c ls"
      by (simp_all add: scanned_lines_def accepted_lines_def)
    have l12: "length (fields_of l) = 12" and
      rest: "\<forall>l\<in>set (scanned_lines True c ls). length (fields_of l) = 12"
      using Cons.prems unfolding s by simp_all
    show ?thesis
      using False l12 Cons.IH [OF rest] unfolding a
      by (auto simp: Let_def matches_nth fields_of_def [symmetric] split: option.splits)
  qed
qed


lemma line_error_Some:
  assumes "line_error L w c l = Some e"
  shows "(e = ErrFieldCount \<and> length (fields_of l) \<noteq> 12) \<or>
         (length (fields_of l) = 12 \<and> (w \<longrightarrow> matches c l) \<and>
          ((e = ErrLatitude (fields_of l ! 9) \<and> ParseFloat L (fields_of l ! 9) = None) \<or>
           (e = ErrLongitude (fields_of l ! 10) \<and> ParseFloat L (fields_of l ! 10) = None)))"
  using assms by (auto simp: line_error_def Let_def split: if_splits)

lemma scanned_accepted_if:
  assumes "l \<in> set (scanned_lines w c ls)" and "w \<longrightarrow> matches c l"
  shows "l \<in> set (accepted_lines w c ls)"
proof (cases w)
  case True
  then show ?thesis using assms scanned_matching_accepted by auto
next
  case False
  then show ?thesis using assms by (simp add: lines_nofilter)
qed

text \<open>
  C4. When the file opens and the country argument is valid, a scanned line with fewer
  than 12 tab-separated fields, or an accepted line whose latitude or longitude does not
  parse, makes \<open>loadDataset\<close> return the zero value \<open>Zipcodes{}\<close> and an error: the
  field-count error, or a latitude or longitude error that carries the text of a field
  that does not parse.
\<close>

theorem malformed_rejected:
  assumes "open_err src = None" and "country = [] \<or> length country = 2"
    and "(\<exists>l\<in>set (scanned_lines (country \<noteq> []) (ToUpper L country) (lines src)).
            length (fields_of l) < 12) \<or>
         (\<exists>l\<in>set (accepted_lines (country \<noteq> []) (ToUpper L country) (lines src)).
            length (fields_of l) = 12 \<and>
            (ParseFloat L (fields_of l ! 9) = None \<or> ParseFloat L (fields_of l ! 10) = None))"
  shows "\<exists>e. loadDataset L src country = Return (Zipcodes_zero, Some e) \<and>
           ((e = ErrFieldCount \<and>
             (\<exists>l\<in>set (scanned_lines (country \<noteq> []) (ToUpper L country) (lines src)).
                length (fields_of l) \<noteq> 12)) \<or>
            (\<exists>l\<in>set (accepted_lines (country \<noteq> []) (ToUpper L country) (lines src)).
               e = ErrLatitude (fields_of l ! 9) \<and> ParseFloat L (fields_of l ! 9) = None) \<or>
            (\<exists>l\<in>set (accepted_lines (country \<noteq> []) (ToUpper L country) (lines src)).
               e = ErrLongitude (fields_of l ! 10) \<and> ParseFloat L (fields_of l ! 10) = None))"
proof -
  define w where "w = (country \<noteq> [])"
  define c where "c = ToUpper L country"
  define sc where "sc = scanned_lines w c (lines src)"
  define ac where "ac = accepted_lines w c (lines src)"
  have "\<exists>l\<in>set sc. line_error L w c l \<noteq> None"
    using assms(3)
  proof
    assume "\<exists>l\<in>set (scanned_lines (country \<noteq> []) (ToUpper L country) (lines src)).
              length (fields_of l) < 12"
    then obtain l where l: "l \<in> set sc" and "length (fields_of l) < 12"
      by (auto simp: sc_def w_def c_def)
    then have "line_error L w c l = Some ErrFieldCount"
      by (simp add: line_error_def Let_def)
    then show ?thesis
      using l by force
  next
    assume "\<exists>l\<in>set (accepted_lines (country \<noteq> []) (ToUpper L country) (lines src)).
              length (fields_of l) = 12 \<and>
              (ParseFloat L (fields_of l ! 9) = None \<or> ParseFloat L (fields_of l ! 10) = None)"
    then obtain l where l: "l \<in> set ac" and "length (fields_of l) = 12"
      and "ParseFloat L (fields_of l ! 9) = None \<or> ParseFloat L (fields_of l ! 10) = None"
      by (auto simp: ac_def w_def c_def)
    moreover have "w \<longrightarrow> matches c l"
      using l accepted_matches_if unfolding ac_def by blast
    ultimately have "line_error L w c l \<noteq> None"
      by (auto simp: line_error_def Let_def)
    moreover have "l \<in> set sc"
      using l accepted_subset_scanned unfolding ac_def sc_def by blast
    ultimately show ?thesis
      by blast
  qed
  then obtain e where e: "first_error L w c sc = Some e"
    using first_error_exists by blast
  then obtain l where l: "l \<in> set sc" and le: "line_error L w c l = Some e"
    using first_error_Some by blast
  have r: "loadDataset L src country = Return (Zipcodes_zero, Some e)"
    using e unfolding loadDataset_char [OF assms(2) assms(1)] sc_def w_def c_def by simp
  have "l \<in> set ac" if "w \<longrightarrow> matches c l"
    using l that scanned_accepted_if unfolding sc_def ac_def by blast
  then have "(e = ErrFieldCount \<and> (\<exists>l\<in>set sc. length (fields_of l) \<noteq> 12)) \<or>
        (\<exists>l\<in>set ac. e = ErrLatitude (fields_of l ! 9) \<and> ParseFloat L (fields_of l ! 9) = None) \<or>
        (\<exists>l\<in>set ac. e = ErrLongitude (fields_of l ! 10) \<and> ParseFloat L (fields_of l ! 10) = None)"
    using line_error_Some [OF le] l by blast
  then show ?thesis
    using r unfolding sc_def ac_def w_def c_def by blast
qed

text \<open>
  C5. A country argument that is not empty and not 2 bytes long makes \<open>loadDataset\<close>
  return the country-code error. Otherwise every record of the returned index is built
  from a line of the source whose field 0 equals the upper-cased argument.
\<close>

theorem country_filter:
  "(country \<noteq> [] \<and> length country \<noteq> 2 \<longrightarrow>
      loadDataset L src country = Return (Zipcodes_zero, Some ErrCountryCode)) \<and>
   (country \<noteq> [] \<longrightarrow>
      (\<forall>zc e k rs r.
         loadDataset L src country = Return (zc, e) \<and> DatasetList zc k = Some rs \<and> r \<in> set rs \<longrightarrow>
         (\<exists>l\<in>set (lines src).
            length (fields_of l) = 12 \<and> fields_of l ! 0 = ToUpper L country \<and>
            built_from L l r)))"
proof (intro conjI impI allI)
  assume "country \<noteq> [] \<and> length country \<noteq> 2"
  then show "loadDataset L src country = Return (Zipcodes_zero, Some ErrCountryCode)"
    by (simp add: loadDataset_def)
next
  fix zc e k rs r
  assume want: "country \<noteq> []"
    and a: "loadDataset L src country = Return (zc, e) \<and> DatasetList zc k = Some rs \<and> r \<in> set rs"
  define c where "c = ToUpper L country"
  define ac where "ac = accepted_lines True c (lines src)"
  have "e = None"
  proof (cases e)
    case (Some err)
    then have "zc = Zipcodes_zero" using a loadDataset_failure by blast
    then show ?thesis using a by (simp add: Zipcodes_zero_def)
  qed simp
  then have s: "loadDataset L src country = Return (zc, None)" using a by simp
  have fe: "first_error L True c (scanned_lines True c (lines src)) = None"
    and zc: "zc = insert_all L ac \<lparr>DatasetList = Map.empty\<rparr>"
    using loadDataset_success [OF s] want by (simp_all add: c_def ac_def)
  have "rs = map (location_of L) (filter (\<lambda>l. fields_of l ! 1 = k) ac)"
    using a unfolding zc DatasetList_insert_all by (simp add: Let_def split: if_splits)
  then obtain l where l: "l \<in> set ac" and r: "r = location_of L l"
    using a by auto
  have "length (fields_of l) = 12 \<and> built_from L l r"
    using accepted_ok [OF fe] l unfolding ac_def r by blast
  moreover have "fields_of l ! 0 = c"
    using accepted_matches l unfolding ac_def matches_nth by blast
  moreover have "l \<in> set (lines src)"
    using l accepted_subset_scanned scanned_subset_lines unfolding ac_def by blast
  ultimately show "\<exists>l\<in>set (lines src).
            length (fields_of l) = 12 \<and> fields_of l ! 0 = ToUpper L country \<and> built_from L l r"
    unfolding c_def by blast
qed

text \<open>
  C6. With a country filter, \<open>loadDataset\<close> gives the same result on the whole source
  as on the scanned lines alone: the lines before the first matching line, the matching
  lines that follow one another, and the first line after them. The lines behind that one
  are not processed. When the scanned lines all have 12 fields, the result is that of the
  accepted lines alone, so the lines skipped and the line that ends the scan add nothing
  and raise nothing. A code that no accepted line carries is not a key of the returned
  index, even when a matching line further down carries it.
\<close>

theorem early_exit:
  assumes "country \<noteq> []"
  shows "loadDataset L src country =
           loadDataset L (src\<lparr>lines := scanned_lines True (ToUpper L country) (lines src)\<rparr>) country \<and>
         ((\<forall>l\<in>set (scanned_lines True (ToUpper L country) (lines src)). length (fields_of l) = 12) \<longrightarrow>
          loadDataset L src country =
            loadDataset L (src\<lparr>lines := accepted_lines True (ToUpper L country) (lines src)\<rparr>) country) \<and>
         (\<forall>zc e code.
            loadDataset L src country = Return (zc, e) \<and>
            (\<forall>l\<in>set (accepted_lines True (ToUpper L country) (lines src)). fields_of l ! 1 \<noteq> code) \<longrightarrow>
            DatasetList zc code = None)"
proof (intro conjI impI allI)
  show "loadDataset L src country =
          loadDataset L (src\<lparr>lines := scanned_lines True (ToUpper L country) (lines src)\<rparr>) country"
    using assms
    by (simp add: loadDataset_def Let_def scan_loop_scanned
          cong: option.case_cong sum.case_cong)
next
  assume "\<forall>l\<in>set (scanned_lines True (ToUpper L country) (lines src)). length (fields_of l) = 12"
  then show "loadDataset L src country =
          loadDataset L (src\<lparr>lines := accepted_lines True (ToUpper L country) (lines src)\<rparr>) country"
    using assms
    by (simp add: loadDataset_def Let_def scan_loop_accepted
          cong: option.case_cong sum.case_cong)
next
  fix zc e code
  assume a: "loadDataset L src country = Return (zc, e) \<and>
     (\<forall>l\<in>set (accepted_lines True (ToUpper L country) (lines src)). fields_of l ! 1 \<noteq> code)"
  show "DatasetList zc code = None"
  proof (cases e)
    case None
    then have "zc = insert_all L (accepted_lines True (ToUpper L country) (lines src))
                      \<lparr>DatasetList = Map.empty\<rparr>"
      using a assms loadDataset_success [of L src country zc] by simp
    moreover have "filter (\<lambda>l. fields_of l ! 1 = code)
                     (accepted_lines True (ToUpper L country) (lines src)) = []"
      using a by (simp add: filter_empty_conv)
    ultimately show ?thesis
      by (simp add: DatasetList_insert_all)
  next
    case (Some err)
    then have "zc = Zipcodes_zero" using a loadDataset_failure by blast
    then show ?thesis by (simp add: Zipcodes_zero_def)
  qed
qed

text \<open>
  C10. With a valid country filter and a file that opens: when the scanned lines all have
  12 fields and the coordinates of the accepted lines parse, \<open>loadDataset\<close> succeeds,
  whatever the coordinates of the other lines are; and a scanned line that does not match
  the filter and does not have 12 fields makes it fail.
\<close>

theorem skipped_lines_not_validated:
  assumes "country \<noteq> []" and "length country = 2" and "open_err src = None"
  shows "(scan_err src = None \<and>
          (\<forall>l\<in>set (scanned_lines True (ToUpper L country) (lines src)). length (fields_of l) = 12) \<and>
          (\<forall>l\<in>set (accepted_lines True (ToUpper L country) (lines src)).
             ParseFloat L (fields_of l ! 9) \<noteq> None \<and> ParseFloat L (fields_of l ! 10) \<noteq> None) \<longrightarrow>
          (\<exists>zc. loadDataset L src country = Return (zc, None))) \<and>
         ((\<exists>l\<in>set (scanned_lines True (ToUpper L country) (lines src)).
             \<not> matches (ToUpper L country) l \<and> length (fields_of l) \<noteq> 12) \<longrightarrow>
          (\<exists>e. loadDataset L src country = Return (Zipcodes_zero, Some e)))"
proof (intro conjI impI)
  define c where "c = ToUpper L country"
  assume a: "scan_err src = None \<and>
          (\<forall>l\<in>set (scanned_lines True (ToUpper L country) (lines src)). length (fields_of l) = 12) \<and>
          (\<forall>l\<in>set (accepted_lines True (ToUpper L country) (lines src)).
             ParseFloat L (fields_of l ! 9) \<noteq> None \<and> ParseFloat L (fields_of l ! 10) \<noteq> None)"
  have "line_error L True c l = None" if l: "l \<in> set (scanned_lines True c (lines src))" for l
  proof (cases "matches c l")
    case True
    then have "l \<in> set (accepted_lines True c (lines src))"
      using l scanned_matching_accepted by blast
    then show ?thesis
      using a l by (auto simp: line_error_def Let_def c_def)
  next
    case False
    then show ?thesis
      using a l by (auto simp: line_error_def Let_def c_def)
  qed
  then have "first_error L True c (scanned_lines True c (lines src)) = None"
    by (simp add: first_error_None_iff)
  then show "\<exists>zc. loadDataset L src country = Return (zc, None)"
    using assms a by (simp add: loadDataset_char c_def)
next
  define c where "c = ToUpper L country"
  assume "\<exists>l\<in>set (scanned_lines True (ToUpper L country) (lines src)).
             \<not> matches (ToUpper L country) l \<and> length (fields_of l) \<noteq> 12"
  then obtain l where l: "l \<in> set (scanned_lines True c (lines src))"
    and "length (fields_of l) \<noteq> 12"
    by (auto simp: c_def)
  then have "line_error L True c l \<noteq> None"
    by (simp add: line_error_def Let_def)
  then obtain e where "first_error L True c (scanned_lines True c (lines src)) = Some e"
    using l first_error_exists by blast
  then show "\<exists>e. loadDataset L src country = Return (Zipcodes_zero, Some e)"
    using assms by (simp add: loadDataset_char c_def)
qed

lemma loadDataset_open_error:
  assumes "open_err src = Some err" and "country = [] \<or> length country = 2"
  shows "loadDataset L src country = Fatal err"
  using assms by (auto simp: loadDataset_def Let_def)

lemma loadDataset_scan_error:
  assumes "open_err src = None" and "country = [] \<or> length country = 2"
    and "scan_err src = Some err"
    and "first_error L (country \<noteq> []) (ToUpper L country)
           (scanned_lines (country \<noteq> []) (ToUpper L country) (lines src)) = None"
  shows "loadDataset L src country = Return (Zipcodes_zero, Some (ErrOpeningFile err))"
  using assms(3,4) by (simp add: loadDataset_char [OF assms(2) assms(1)])

text \<open>
  C8. When \<open>os.Open\<close> fails, \<open>loadDataset\<close> calls \<open>log.Fatal\<close>: the process ends and
  no error value reaches the caller. The \<open>return\<close> that follows in the source is never
  reached.
\<close>

theorem open_failure_is_fatal:
  "loadDataset example_lib example_missing [] =
     Fatal ''open datasets/missing.txt: no such file or directory''"
  by (simp add: loadDataset_def example_missing_def)

subsection \<open>The properties on the example data\<close>

lemma example_short_fields:
  "map fields_of (lines example_short) =
     [[''DE'', ''01945'', ''Guteborn'', ''Brandenburg'', ''BB'', '''', ''00'',
       ''Oberspreewald-Lausitz'', ''12066'', ''51.4167'', ''13.9333'', ''''],
      [''US'', ''99553'', ''Akutan'']]"
  by (simp add: example_short_def example_lines_def fields_of_def tab_def)

lemma example_lines_src: "lines example_src = example_lines" "open_err example_src = None"
  "scan_err example_src = None"
  by (simp_all add: example_src_def)

lemma example_lengths:
  "map (\<lambda>l. length (fields_of l)) example_lines = [12, 12, 12, 12, 12, 12, 3]"
  by (simp add: example_lines_def fields_of_def tab_def)

theorem malformed_rejected_witness:
  "open_err example_short = None \<and>
   length (fields_of (lines example_short ! 1)) < 12 \<and>
   loadDataset example_lib example_short [] = Return (Zipcodes_zero, Some ErrFieldCount) \<and>
   open_err example_src = None \<and>
   example_lines ! 0 \<in> set (accepted_lines False [] example_lines) \<and>
   length (fields_of (example_lines ! 0)) = 12 \<and>
   ParseFloat example_lib (fields_of (example_lines ! 0) ! 9) = None \<and>
   loadDataset example_lib example_src [] = Return (Zipcodes_zero, Some (ErrLatitude ''WRONG''))"
proof -
  have o: "open_err example_short = None"
    by (simp add: example_short_def)
  have s: "\<exists>l\<in>set (scanned_lines ([] \<noteq> []) (ToUpper example_lib []) (lines example_short)).
             length (fields_of l) < 12"
    by (simp add: scanned_lines_def example_short_def fields_of_def tab_def)
  have p: "ParseFloat example_lib (fields_of (example_lines ! 0) ! 9) = None"
    by (simp add: example_eval fields_of_def)
  have a: "\<exists>l\<in>set (accepted_lines ([] \<noteq> []) (ToUpper example_lib []) (lines example_src)).
             length (fields_of l) = 12 \<and>
             (ParseFloat example_lib (fields_of l ! 9) = None \<or>
              ParseFloat example_lib (fields_of l ! 10) = None)"
    using p by (simp add: accepted_lines_def example_lines_src example_lines_def fields_of_def tab_def)
  have "\<exists>e. loadDataset example_lib example_short [] = Return (Zipcodes_zero, Some e)"
    using malformed_rejected [of example_short "[]" example_lib] o s by blast
  moreover have "\<exists>e. loadDataset example_lib example_src [] = Return (Zipcodes_zero, Some e)"
    using malformed_rejected [of example_src "[]" example_lib] a example_lines_src by blast
  ultimately show ?thesis
    using p
    by (simp add: loadDataset_def example_eval example_short_def accepted_lines_def
          fields_of_def Zipcodes_zero_def)
qed


lemma example_index_keys:
  "DatasetList example_index ''01945'' =
     Some [\<lparr>ZipCode = ''01945'', PlaceName = ''Guteborn'', AdminName = ''Brandenburg'',
            Lat = 51.4167, Lon = 13.9333, StateCode = ''BB''\<rparr>]"
  "DatasetList example_index ''20457'' = None"
  by (simp_all add: example_index_def append_at_def)

theorem country_filter_witness:
  "''deu'' \<noteq> [] \<and> length ''deu'' \<noteq> 2 \<and>
   loadDataset example_lib example_src ''deu'' = Return (Zipcodes_zero, Some ErrCountryCode) \<and>
   loadDataset example_lib example_src ''de'' = Return (example_index, None) \<and>
   DatasetList example_index ''01945'' =
     Some [\<lparr>ZipCode = ''01945'', PlaceName = ''Guteborn'', AdminName = ''Brandenburg'',
            Lat = 51.4167, Lon = 13.9333, StateCode = ''BB''\<rparr>] \<and>
   (\<exists>l\<in>set (lines example_src).
      length (fields_of l) = 12 \<and> fields_of l ! 0 = ''DE'' \<and>
      built_from example_lib l
        \<lparr>ZipCode = ''01945'', PlaceName = ''Guteborn'', AdminName = ''Brandenburg'',
         Lat = 51.4167, Lon = 13.9333, StateCode = ''BB''\<rparr>)"
proof -
  have a: "loadDataset example_lib example_src ''deu'' = Return (Zipcodes_zero, Some ErrCountryCode)"
    using country_filter [of "''deu''" example_lib example_src] by simp
  have b: "\<exists>l\<in>set (lines example_src).
      length (fields_of l) = 12 \<and> fields_of l ! 0 = ToUpper example_lib ''de'' \<and>
      built_from example_lib l
        \<lparr>ZipCode = ''01945'', PlaceName = ''Guteborn'', AdminName = ''Brandenburg'',
         Lat = 51.4167, Lon = 13.9333, StateCode = ''BB''\<rparr>"
    using country_filter [of "''de''" example_lib example_src, THEN conjunct2, rule_format,
        of example_index None "''01945''"] example_load_de example_index_keys(1)
    by simp
  show ?thesis
    using a b by (simp add: example_load_de example_index_keys example_upper)
qed

theorem early_exit_witness:
  "''de'' \<noteq> [] \<and>
   scanned_lines True ''DE'' example_lines = take 5 example_lines \<and>
   map (\<lambda>l. length (fields_of l)) (take 5 example_lines) = [12, 12, 12, 12, 12] \<and>
   accepted_lines True ''DE'' example_lines =
     [example_lines ! 1, example_lines ! 2, example_lines ! 3] \<and>
   matches ''DE'' (example_lines ! 5) \<and> fields_of (example_lines ! 5) ! 1 = ''20457'' \<and>
   loadDataset example_lib example_src ''de'' = Return (example_index, None) \<and>
   loadDataset example_lib (example_src\<lparr>lines := take 5 example_lines\<rparr>) ''de'' =
     Return (example_index, None) \<and>
   loadDataset example_lib
     (example_src\<lparr>lines := [example_lines ! 1, example_lines ! 2, example_lines ! 3]\<rparr>) ''de'' =
     Return (example_index, None) \<and>
   DatasetList example_index ''20457'' = None \<and>
   Lookup example_index ''20457'' = ([], Some ErrZipcodeNotFound)"
proof -
  have ne: "''de'' \<noteq> []" by simp
  have t: "\<forall>l\<in>set (take 5 example_lines). length (fields_of l) = 12"
    by (simp add: example_lines_def fields_of_def tab_def)
  have c: "\<forall>l\<in>set [example_lines ! 1, example_lines ! 2, example_lines ! 3].
             fields_of l ! 1 \<noteq> ''20457''"
    by (simp add: example_lines_def fields_of_def tab_def)
  have m: "matches ''DE'' (example_lines ! 5)" "fields_of (example_lines ! 5) ! 1 = ''20457''"
    by (simp_all add: matches_def example_lines_def fields_of_def tab_def)
  note e = early_exit [OF ne, of example_lib example_src, unfolded example_upper
      example_lines_src example_scanned example_accepted example_load_de]
  have "DatasetList example_index ''20457'' = None"
    using e c by blast
  moreover have "Return (example_index, None) =
      loadDataset example_lib (example_src\<lparr>lines := take 5 example_lines\<rparr>) ''de''"
    using e by blast
  moreover have "Return (example_index, None) =
      loadDataset example_lib
        (example_src\<lparr>lines := [example_lines ! 1, example_lines ! 2, example_lines ! 3]\<rparr>) ''de''"
    using e t by blast
  moreover have "map (\<lambda>l. length (fields_of l)) (take 5 example_lines) = [12, 12, 12, 12, 12]"
    by (simp add: example_lines_def fields_of_def tab_def)
  ultimately show ?thesis
    using m by (simp add: example_scanned example_accepted example_load_de Lookup_def)
qed

theorem skipped_lines_not_validated_witness:
  "''de'' \<noteq> [] \<and> length ''de'' = 2 \<and> open_err example_src = None \<and>
   scan_err example_src = None \<and>
   \<not> matches ''DE'' (example_lines ! 0) \<and>
   example_lines ! 0 \<in> set (scanned_lines True ''DE'' example_lines) \<and>
   ParseFloat example_lib (fields_of (example_lines ! 0) ! 9) = None \<and>
   (\<exists>zc. loadDataset example_lib example_src ''de'' = Return (zc, None)) \<and>
   open_err example_short = None \<and>
   lines example_short ! 1 \<in> set (scanned_lines True ''DE'' (lines example_short)) \<and>
   \<not> matches ''DE'' (lines example_short ! 1) \<and>
   length (fields_of (lines example_short ! 1)) \<noteq> 12 \<and>
   (\<exists>e. loadDataset example_lib example_short ''de'' = Return (Zipcodes_zero, Some e))"
proof -
  have ne: "''de'' \<noteq> []" and two: "length ''de'' = 2" by simp_all
  have t: "\<forall>l\<in>set (take 5 example_lines). length (fields_of l) = 12"
    by (simp add: example_lines_def fields_of_def tab_def)
  have p: "\<forall>l\<in>set [example_lines ! 1, example_lines ! 2, example_lines ! 3].
      ParseFloat example_lib (fields_of l ! 9) \<noteq> None \<and>
      ParseFloat example_lib (fields_of l ! 10) \<noteq> None"
    by (simp add: example_eval fields_of_def del: not_None_eq)
  have first: "\<exists>zc. loadDataset example_lib example_src ''de'' = Return (zc, None)"
    using skipped_lines_not_validated [OF ne two example_lines_src(2), of example_lib,
        unfolded example_upper example_lines_src example_scanned example_accepted] t p
    by blast
  have o: "open_err example_short = None"
    by (simp add: example_short_def)
  have sc: "lines example_short ! 1 \<in> set (scanned_lines True ''DE'' (lines example_short))"
    and nm: "\<not> matches ''DE'' (lines example_short ! 1)"
    and n12: "length (fields_of (lines example_short ! 1)) \<noteq> 12"
    by (simp_all add: scanned_lines_def matches_def example_short_def example_lines_def
          fields_of_def tab_def)
  have second: "\<exists>e. loadDataset example_lib example_short ''de'' = Return (Zipcodes_zero, Some e)"
    using skipped_lines_not_validated [OF ne two o, of example_lib, unfolded example_upper]
      sc nm n12
    by blast
  have z: "\<not> matches ''DE'' (example_lines ! 0)"
    "ParseFloat example_lib (fields_of (example_lines ! 0) ! 9) = None"
    by (simp_all add: matches_def example_eval fields_of_def)
  have z': "example_lines ! 0 \<in> set (scanned_lines True ''DE'' example_lines)"
    unfolding example_scanned by (simp add: example_lines_def)
  show ?thesis
    using first second o sc nm n12 z z' by (simp add: example_lines_src)
qed

section \<open>Properties of Lookup\<close>

text \<open>
  C1. For every index and every code: when the code is not a key, \<open>Lookup\<close> returns the
  nil slice and \<open>ErrZipcodeNotFound\<close>; when the key holds exactly one record, it returns
  that one-element slice and no error; when the key holds two or more records, it returns
  all of them together with \<open>ErrMultipleLatLon\<close>.
\<close>

theorem Lookup_trichotomy:
  "(DatasetList zc code = None \<longrightarrow> Lookup zc code = ([], Some ErrZipcodeNotFound)) \<and>
   (\<forall>r. DatasetList zc code = Some [r] \<longrightarrow> Lookup zc code = ([r], None)) \<and>
   (\<forall>rs. DatasetList zc code = Some rs \<and> 2 \<le> length rs \<longrightarrow>
      Lookup zc code = (rs, Some ErrMultipleLatLon))"
  by (simp add: Lookup_def)

theorem Lookup_trichotomy_witness:
  "DatasetList example_zc ''XYZ'' = None \<and>
   Lookup example_zc ''XYZ'' = ([], Some ErrZipcodeNotFound) \<and>
   length (the (DatasetList example_zc ''01945'')) = 1 \<and>
   Lookup example_zc ''01945'' = (the (DatasetList example_zc ''01945''), None) \<and>
   length (the (DatasetList example_zc ''03058'')) = 2 \<and>
   Lookup example_zc ''03058'' = (the (DatasetList example_zc ''03058''), Some ErrMultipleLatLon)"
proof -
  have a: "DatasetList example_zc ''XYZ'' = None"
    by (simp add: example_zc_def)
  obtain r where b: "DatasetList example_zc ''01945'' = Some [r]"
    by (simp add: example_zc_def)
  obtain rs where c: "DatasetList example_zc ''03058'' = Some rs" and d: "length rs = 2"
    by (simp add: example_zc_def)
  from a b c d show ?thesis
    using Lookup_trichotomy [of example_zc "''XYZ''"]
          Lookup_trichotomy [of example_zc "''01945''"]
          Lookup_trichotomy [of example_zc "''03058''"]
    by simp
qed


end
